theory Spec2Isabelle
  imports Complex_Main "HOL-Library.Word" "HOL-Library.Log_Nat"
begin

unbundle bit_operations_syntax

section \<open>SAS-TimeStamps: the timestamp engine of \<^verbatim>\<open>sw.js\<close>\<close>

text \<open>
  The service worker answers \<^verbatim>\<open>GET /api?name=...\<close> with a plan: the name is
  normalised, classified into a category, its payload is turned into a fraction and a
  slot, a one-bit hash nudges it, and the sum of the three offsets is subtracted from a
  base instant.

  Conventions of the embedding.
  \<^item> A JavaScript string is a \<^typ>\<open>string\<close>; its characters are read as code units of
    the ASCII range, the range of the charset and of every literal of the program.
    \<^verbatim>\<open>toUpperCase\<close> and \<^verbatim>\<open>trim\<close> are written out for that range.
  \<^item> A JavaScript number that holds an integer (indices, slots, offsets, milliseconds)
    is an \<^typ>\<open>int\<close>. A double that need not be an integer (the scale and the total of
    \<^verbatim>\<open>lexFraction\<close>) is the \<^typ>\<open>rat\<close> it denotes, and each operation on such
    numbers is rounded as binary64 arithmetic rounds it (\<open>round64\<close>).
  \<^item> The 32-bit hash state is a \<^typ>\<open>32 word\<close>.
  \<^item> The host (time zone, locale, date rendering) is a parameter, the record \<open>host\<close>.
  \<^item> An exception is a value: \<open>Inl\<close> of \<open>js_error\<close>.
\<close>

subsection \<open>User configuration and tables\<close>

definition SECONDS_BETWEEN_ITEMS :: int where
  "SECONDS_BETWEEN_ITEMS = 1"

definition SLOTS_PER_CATEGORY :: int where
  "SLOTS_PER_CATEGORY = 86400"

text \<open>The object literal, as its entries in insertion order (the order of \<^verbatim>\<open>Object.entries\<close>).\<close>

definition UNPREFIXED_IN_CATEGORY :: "(string \<times> string list) list" where
  "UNPREFIXED_IN_CATEGORY =
    [(''APP_'', [''OSDXMB'', ''XEBPLUS'']),
     (''APPS'', []),
     (''PS1_'', []),
     (''EMU_'', []),
     (''GME_'', []),
     (''DST_'', []),
     (''DBG_'', []),
     (''RAA_'', [''RESTART'', ''POWEROFF'']),
     (''RTE_'', [''NEUTRINO'']),
     (''SYS_'', [''BOOT'']),
     (''ZZY_'', [''EXPLOITS'']),
     (''ZZZ_'', [''BM'', ''MATRIXTEAM'', ''OPL''])]"

definition CATEGORY_ORDER :: "string list" where
  "CATEGORY_ORDER =
    [''APP_'', ''APPS'', ''PS1_'', ''EMU_'', ''GME_'', ''DST_'', ''DBG_'',
     ''RAA_'', ''RTE_'', ''DEFAULT'', ''SYS_'', ''ZZY_'', ''ZZZ_'']"

text \<open>
  \<^verbatim>\<open>Object.fromEntries(xs.map((k,i)=>[k,i]))\<close> and \<^verbatim>\<open>new Map(...)\<close>: a later entry
  with the same key replaces an earlier one, so the entries are searched from the back.
\<close>

definition indexTable :: "'a list \<Rightarrow> 'a \<rightharpoonup> nat" where
  "indexTable xs = map_of (rev (map (\<lambda>(i, k). (k, i)) (enumerate 0 xs)))"

definition CATEGORY_INDEX :: "string \<rightharpoonup> nat" where
  "CATEGORY_INDEX = indexTable CATEGORY_ORDER"

definition CATEGORY_BLOCK_SECONDS :: int where
  "CATEGORY_BLOCK_SECONDS = SLOTS_PER_CATEGORY * SECONDS_BETWEEN_ITEMS"

definition CHARSET :: string where
  "CHARSET = '' 0123456789ABCDEFGHIJKLMNOPQRSTUVWXYZ_-.''"

definition CHAR_INDEX :: "char \<rightharpoonup> nat" where
  "CHAR_INDEX = indexTable CHARSET"

definition BASE :: nat where
  "BASE = length CHARSET"

subsection \<open>Arithmetic of doubles\<close>

text \<open>
  A finite double is the rational number it denotes. Every arithmetic operation of the
  source on non-integers is the exact operation followed by \<open>round64\<close>: rounding to the
  nearest number with a 53-bit significand, ties to the even significand, with the
  spacing \<open>2 ^ (e - 52)\<close> for a value between \<open>2 ^ e\<close> and \<open>2 ^ (e + 1)\<close> and the
  fixed spacing \<open>2 ^ - 1074\<close> below \<open>2 ^ - 1022\<close>.
\<close>

definition pow2 :: "int \<Rightarrow> rat" where
  "pow2 k = (if 0 \<le> k then 2 ^ nat k else 1 / 2 ^ nat (- k))"

text \<open>The binary exponent of a positive number: \<open>pow2 e \<le> x < pow2 (e + 1)\<close>.\<close>

definition exponentOf :: "rat \<Rightarrow> int" where
  "exponentOf x =
    (if 1 \<le> x then bitlen \<lfloor>x\<rfloor> - 1
     else - bitlen (\<lceil>1 / x\<rceil> - 1))"

definition roundHalfEven :: "rat \<Rightarrow> int" where
  "roundHalfEven y =
    (let f = \<lfloor>y\<rfloor>; r = y - of_int f in
     if r < 1 / 2 then f
     else if 1 / 2 < r then f + 1
     else if even f then f else f + 1)"

definition round64 :: "rat \<Rightarrow> rat" where
  "round64 x =
    (if x = 0 then 0
     else let ulp = pow2 (max (exponentOf \<bar>x\<bar>) (- 1022) - 52)
          in of_int (roundHalfEven (x / ulp)) * ulp)"

subsection \<open>String primitives of the runtime\<close>

definition isWhiteSpace :: "char \<Rightarrow> bool" where
  "isWhiteSpace c \<longleftrightarrow> (of_char c :: nat) \<in> {9, 10, 11, 12, 13, 32}"

definition trim :: "string \<Rightarrow> string" where
  "trim s = rev (dropWhile isWhiteSpace (rev (dropWhile isWhiteSpace s)))"

definition upperChar :: "char \<Rightarrow> char" where
  "upperChar c =
    (case map_of (zip ''abcdefghijklmnopqrstuvwxyz'' ''ABCDEFGHIJKLMNOPQRSTUVWXYZ'') c of
       Some u \<Rightarrow> u
     | None \<Rightarrow> c)"

definition toUpperCase :: "string \<Rightarrow> string" where
  "toUpperCase s = map upperChar s"

definition startsWith :: "string \<Rightarrow> string \<Rightarrow> bool" where
  "startsWith s p \<longleftrightarrow> take (length p) s = p"

text \<open>\<^verbatim>\<open>s.replace(/-/g, "")\<close>\<close>

definition removeDashes :: "string \<Rightarrow> string" where
  "removeDashes s = filter (\<lambda>c. c \<noteq> CHR ''-'') s"

subsection \<open>Name normaliser\<close>

text \<open>The loop over the override table: the first category whose list includes the name.\<close>

fun overrideLookup :: "(string \<times> string list) list \<Rightarrow> string \<Rightarrow> string option" where
  "overrideLookup [] n = None"
| "overrideLookup ((catKey, list) # rest) n =
    (if n \<in> set list then Some (if catKey = ''APPS'' then ''APPS'' else catKey @ n)
     else overrideLookup rest n)"

definition normalizeToEffective :: "string \<Rightarrow> string" where
  "normalizeToEffective name =
    (let n = toUpperCase (trim name) in
     case overrideLookup UNPREFIXED_IN_CATEGORY n of
       Some e \<Rightarrow> e
     | None \<Rightarrow>
         if n = ''OSDXMB'' \<or> n = ''XEBPLUS'' then ''APP_'' @ n
         else if n = ''RESTART'' \<or> n = ''POWEROFF'' then ''RAA_'' @ n
         else if n = ''NEUTRINO'' then ''RTE_'' @ n
         else if n = ''BOOT'' then ''SYS_BOOT''
         else if n = ''EXPLOITS'' then ''ZZY_EXPLOITS''
         else if n = ''BM'' \<or> n = ''MATRIXTEAM'' \<or> n = ''OPL'' then ''ZZZ_'' @ n
         else n)"

subsection \<open>Category classifier, label and payload\<close>

definition effectiveCategoryKey :: "string \<Rightarrow> string" where
  "effectiveCategoryKey eff =
    (if startsWith eff ''APP_'' then ''APP_''
     else if eff = ''APPS'' then ''APPS''
     else if startsWith eff ''PS1_'' then ''PS1_''
     else if startsWith eff ''EMU_'' then ''EMU_''
     else if startsWith eff ''GME_'' then ''GME_''
     else if startsWith eff ''DST_'' then ''DST_''
     else if startsWith eff ''DBG_'' then ''DBG_''
     else if startsWith eff ''RAA_'' then ''RAA_''
     else if startsWith eff ''RTE_'' then ''RTE_''
     else if startsWith eff ''SYS_'' \<or> eff = ''SYS'' then ''SYS_''
     else if startsWith eff ''ZZY_'' then ''ZZY_''
     else if startsWith eff ''ZZZ_'' then ''ZZZ_''
     else ''DEFAULT'')"

definition categoryLabel :: "string \<Rightarrow> string" where
  "categoryLabel eff =
    (let key = effectiveCategoryKey eff in
     if key = ''DEFAULT'' then ''DEFAULT''
     else if key = ''APPS'' then ''APPS'' else key @ ''*'')"

definition payloadForEffective :: "string \<Rightarrow> string" where
  "payloadForEffective eff =
    (let key = effectiveCategoryKey eff in
     if key = ''APPS'' then ''APPS''
     else if key = ''DEFAULT'' then removeDashes eff
     else removeDashes (if startsWith eff key then drop (length key) eff else eff))"

subsection \<open>Lexicographic fraction and slot\<close>

definition charCode :: "char \<Rightarrow> nat" where
  "charCode ch = (case CHAR_INDEX ch of Some i \<Rightarrow> i | None \<Rightarrow> BASE - 1)"

text \<open>
  The body of the \<^verbatim>\<open>for\<close> loop, on the characters it visits; \<open>tot\<close> (the source's
  \<^verbatim>\<open>total\<close>) and \<open>scale\<close> are the two loop variables. The product, the quotient
  and the sum are each rounded to a double; \<open>code + 1\<close> is a small integer and exact.
\<close>

fun lexLoop :: "string \<Rightarrow> rat \<Rightarrow> rat \<Rightarrow> rat" where
  "lexLoop [] tot scale = tot"
| "lexLoop (ch # rest) tot scale =
    (let scale' = round64 (scale * of_nat BASE);
         code = charCode ch
     in lexLoop rest (round64 (tot + round64 ((of_nat code + 1) / scale'))) scale')"

text \<open>The loop runs over the indices below \<^verbatim>\<open>Math.min(128, s.length)\<close>.\<close>

definition lexFraction :: "string \<Rightarrow> rat" where
  "lexFraction payload = lexLoop (take 128 (toUpperCase payload)) 0 1"

definition slotIndexWithinCategory :: "string \<Rightarrow> int \<times> string" where
  "slotIndexWithinCategory eff =
    (let payload = payloadForEffective eff;
         frac = lexFraction payload;
         slot = \<lfloor>round64 (frac * of_int SLOTS_PER_CATEGORY)\<rfloor>;
         slot = (if slot \<ge> SLOTS_PER_CATEGORY then SLOTS_PER_CATEGORY - 1 else slot)
     in (slot, payload))"

subsection \<open>Stable nudge\<close>

text \<open>FNV-1a on 32 bits: xor the code unit in, multiply, keep the low 32 bits.\<close>

fun fnvLoop :: "string \<Rightarrow> 32 word \<Rightarrow> 32 word" where
  "fnvLoop [] h = h"
| "fnvLoop (c # rest) h = fnvLoop rest ((h XOR of_nat (of_char c)) * 0x01000193)"

definition stableHash01 :: "string \<Rightarrow> int" where
  "stableHash01 s = uint (fnvLoop s 0x811c9dc5 AND 1)"

subsection \<open>Timestamp composer\<close>

text \<open>
  What the engine takes from its host: the epoch milliseconds of the local civil time
  2098-12-31 23:59:59 (they depend on the time zone), and the two renderings of an
  instant given in epoch milliseconds.
\<close>

record host =
  baseLocalMillis :: int
  toLocaleString :: "int \<Rightarrow> string"
  toISOString :: "int \<Rightarrow> string"

definition toUTCDateFromLocalBaseMinusSeconds :: "host \<Rightarrow> int \<Rightarrow> int" where
  "toUTCDateFromLocalBaseMinusSeconds h totalSeconds = baseLocalMillis h - totalSeconds * 1000"

record Plan =
  ok :: bool
  input :: string
  effectiveName :: string
  category :: string
  categoryKey :: string
  categoryIndex :: int
  slot :: int
  offsetSeconds :: int
  payloadUsed :: string
  isoLocal :: string
  isoUTC :: string
  epochMillis :: int

datatype js_error = RangeError

text \<open>
  A key that \<open>CATEGORY_INDEX\<close> does not hold would give \<^verbatim>\<open>undefined\<close>, an offset
  that is not a number, an invalid date, and a \<^verbatim>\<open>RangeError\<close> from \<^verbatim>\<open>toISOString\<close>.
\<close>

definition planForName :: "host \<Rightarrow> string \<Rightarrow> js_error + Plan" where
  "planForName h originalName =
    (let eff = normalizeToEffective originalName;
         catKey = effectiveCategoryKey eff
     in case CATEGORY_INDEX catKey of
          None \<Rightarrow> Inl RangeError
        | Some i \<Rightarrow>
            (let catIdx = int i;
                 (slot, payloadUsed) = slotIndexWithinCategory eff;
                 nudge = stableHash01 eff;
                 catOffset = catIdx * CATEGORY_BLOCK_SECONDS;
                 nameOffset = (slot * SECONDS_BETWEEN_ITEMS) + nudge;
                 offsetSec = catOffset + nameOffset;
                 dt = toUTCDateFromLocalBaseMinusSeconds h offsetSec
             in Inr \<lparr>ok = True,
                     input = originalName,
                     effectiveName = eff,
                     category = categoryLabel eff,
                     categoryKey = catKey,
                     categoryIndex = catIdx,
                     slot = slot,
                     offsetSeconds = offsetSec,
                     payloadUsed = payloadUsed,
                     isoLocal = toLocaleString h dt,
                     isoUTC = toISOString h dt,
                     epochMillis = dt\<rparr>))"

subsection \<open>The request handler\<close>

text \<open>
  The handler reads one thing of the URL, \<^verbatim>\<open>url.searchParams.get('name')\<close>: the value
  of the first pair named \<open>name\<close>, or \<^verbatim>\<open>null\<close>. The body is the value handed to
  \<^verbatim>\<open>JSON.stringify\<close>: a plan, or the object \<^verbatim>\<open>{ ok, error }\<close>. Next to the response
  the model returns the arguments of the calls of \<open>planForName\<close> it made, in order.
\<close>

type_synonym url = "(string \<times> string) list"

definition searchParams_get :: "url \<Rightarrow> string \<Rightarrow> string option" where
  "searchParams_get u k = map_of u k"

datatype api_body = PlanBody Plan | ErrorBody bool string

record response =
  body :: api_body
  status :: nat
  headers :: "(string \<times> string) list"

definition apiHeaders :: "(string \<times> string) list" where
  "apiHeaders =
    [(''Content-Type'', ''application/json; charset=utf-8''),
     (''Cache-Control'', ''no-store''),
     (''Access-Control-Allow-Origin'', ''*'')]"

definition handleApi :: "host \<Rightarrow> url \<Rightarrow> string list \<times> (js_error + response)" where
  "handleApi h u =
    (let name = (case searchParams_get u ''name'' of None \<Rightarrow> '''' | Some v \<Rightarrow> v) in
     if name \<noteq> '''' then
       (case planForName h name of
          Inl e \<Rightarrow> ([name], Inl e)
        | Inr p \<Rightarrow> ([name], Inr \<lparr>body = PlanBody p, status = 200, headers = apiHeaders\<rparr>))
     else
       ([], Inr \<lparr>body = ErrorBody False ''Missing 'name' query param'',
                 status = 200, headers = apiHeaders\<rparr>))"

subsection \<open>A host for closed examples\<close>

text \<open>
  A host in the time zone UTC, where the base instant 2098-12-31 23:59:59 is
  4070908799000 ms after the epoch. No example below depends on the text of a rendered
  date, so both renderings are left empty.
\<close>

definition utcHost :: host where
  "utcHost = \<lparr>baseLocalMillis = 4070908799000,
              toLocaleString = (\<lambda>ms. ''''), toISOString = (\<lambda>ms. '''')\<rparr>"

subsection \<open>The fraction by positions\<close>

text \<open>
  The specification describes the fraction by positions: the character at the 1-based
  position \<open>i\<close> contributes \<open>(rank + 1) / B ^ i\<close>, and the contributions are summed from
  the first position on. In doubles: \<open>powerOfBase i\<close> is \<open>B ^ i\<close> by repeated
  multiplication, \<open>contribution s i\<close> is the quotient for the character at the 0-based
  index \<open>i\<close>, and \<open>partialSum s n\<close> is the sum of the first \<open>n\<close> contributions.
\<close>

fun powerOfBase :: "nat \<Rightarrow> rat" where
  "powerOfBase 0 = 1"
| "powerOfBase (Suc i) = round64 (powerOfBase i * 40)"

definition contribution :: "string \<Rightarrow> nat \<Rightarrow> rat" where
  "contribution s i = round64 ((of_nat (charCode (s ! i)) + 1) / powerOfBase (i + 1))"

fun partialSum :: "string \<Rightarrow> nat \<Rightarrow> rat" where
  "partialSum s 0 = 0"
| "partialSum s (Suc n) = round64 (partialSum s n + contribution s n)"

subsection \<open>The classifier as the specification words it\<close>

text \<open>
  The specification describes the classifier as a walk over the category order table:
  each four-character key is a prefix rule, \<open>APPS\<close> is an exact match, \<open>SYS_\<close> also
  accepts the bare \<open>SYS\<close>, the first rule that matches wins, and \<open>DEFAULT\<close> is the
  fallback.
\<close>

definition ruleMatches :: "string \<Rightarrow> string \<Rightarrow> bool" where
  "ruleMatches key eff \<longleftrightarrow>
    (if key = ''APPS'' then eff = ''APPS''
     else if key = ''SYS_'' then startsWith eff ''SYS_'' \<or> eff = ''SYS''
     else startsWith eff key)"

definition classifyInTableOrder :: "string \<Rightarrow> string" where
  "classifyInTableOrder eff =
    (case find (\<lambda>key. ruleMatches key eff) (filter (\<lambda>key. length key = 4) CATEGORY_ORDER) of
       Some key \<Rightarrow> key
     | None \<Rightarrow> ''DEFAULT'')"

section \<open>Properties\<close>

subsection \<open>Rounding\<close>

lemma pow2_pos: "0 < pow2 k"
  by (simp add: pow2_def)

lemma pow2_powi: "pow2 k = 2 powi k"
  by (simp add: pow2_def power_int_def field_simps)

lemma roundHalfEven_nonneg: "0 \<le> y \<Longrightarrow> 0 \<le> roundHalfEven y"
  by (auto simp: roundHalfEven_def Let_def)

lemma round64_nonneg: "0 \<le> x \<Longrightarrow> 0 \<le> round64 x"
  using pow2_pos by (simp add: round64_def Let_def roundHalfEven_nonneg less_imp_le)

lemma roundHalfEven_error: "\<bar>of_int (roundHalfEven y) - y\<bar> \<le> 1 / 2"
proof -
  have "y - of_int \<lfloor>y\<rfloor> < 1" "0 \<le> y - of_int \<lfloor>y\<rfloor>"
    by linarith+
  then show ?thesis
    by (auto simp: roundHalfEven_def Let_def abs_le_iff)
qed

lemma roundHalfEven_le: "y \<le> of_int n \<Longrightarrow> roundHalfEven y \<le> n"
proof -
  assume "y \<le> of_int n"
  then have f: "\<lfloor>y\<rfloor> \<le> n" by (simp add: floor_le_iff) 
  show ?thesis
  proof (cases "\<lfloor>y\<rfloor> = n")
    case True
    with \<open>y \<le> of_int n\<close> have "y = of_int n"
      by (metis of_int_floor_le order_antisym)
    then show ?thesis by (simp add: roundHalfEven_def)
  next
    case False
    with f have "\<lfloor>y\<rfloor> + 1 \<le> n" by simp
    then show ?thesis by (auto simp: roundHalfEven_def Let_def)
  qed
qed

lemma roundHalfEven_ge: "of_int n \<le> y \<Longrightarrow> n \<le> roundHalfEven y"
proof -
  assume "of_int n \<le> y"
  then have "n \<le> \<lfloor>y\<rfloor>" by (simp add: le_floor_iff)
  then show ?thesis by (auto simp: roundHalfEven_def Let_def)
qed

lemma round64_error:
  "\<bar>round64 x - x\<bar> \<le> pow2 (max (exponentOf \<bar>x\<bar>) (- 1022) - 52) / 2"
proof (cases "x = 0")
  case True
  then show ?thesis using pow2_pos [of "max (exponentOf \<bar>x\<bar>) (- 1022) - 52"]
    by (simp add: round64_def)
next
  case False
  define u where "u = pow2 (max (exponentOf \<bar>x\<bar>) (- 1022) - 52)"
  have u: "0 < u" by (simp add: u_def pow2_pos)
  have "round64 x - x = (of_int (roundHalfEven (x / u)) - x / u) * u"
    using False u by (simp add: round64_def Let_def u_def [symmetric] field_simps)
  then have "\<bar>round64 x - x\<bar> = \<bar>of_int (roundHalfEven (x / u)) - x / u\<bar> * u"
    using u by (simp add: abs_mult)
  also have "\<dots> \<le> (1 / 2) * u"
    using roundHalfEven_error [of "x / u"] u by (intro mult_right_mono) simp_all
  finally show ?thesis by (simp add: u_def)
qed

lemma exponentOf_bounds:
  assumes "0 < x"
  shows "pow2 (exponentOf x) \<le> x \<and> x < pow2 (exponentOf x + 1)"
proof (cases "1 \<le> x")
  case True
  define n where "n = \<lfloor>x\<rfloor>"
  have n: "1 \<le> n" "of_int n \<le> x" "x < of_int n + 1"
    using True unfolding n_def by linarith+
  have b: "2 ^ nat (bitlen n - 1) \<le> n" "n < 2 ^ nat (bitlen n)"
    using bitlen_bounds [of n] n(1) by auto
  have b1: "1 \<le> bitlen n"
    using n(1) by (simp add: bitlen_alt_def)
  have e: "exponentOf x = bitlen n - 1"
    using True by (simp add: exponentOf_def n_def)
  have "(2::rat) ^ nat (bitlen n - 1) \<le> of_int n"
    using b(1) by simp
  then have "(2::rat) ^ nat (bitlen n - 1) \<le> x"
    using n(2) by (rule order_trans)
  then have lo: "pow2 (exponentOf x) \<le> x"
    using b1 by (simp add: e pow2_def)
  have "n + 1 \<le> 2 ^ nat (bitlen n)"
    using b(2) by simp
  then have "(of_int (n + 1) :: rat) \<le> 2 ^ nat (bitlen n)"
    by (simp only: of_int_le_numeral_power_cancel_iff)
  then have "(of_int n + 1 :: rat) \<le> 2 ^ nat (bitlen n)"
    by simp
  with n(3) have "x < 2 ^ nat (bitlen n)"
    by (rule less_le_trans)
  then have hi: "x < pow2 (exponentOf x + 1)"
    using b1 by (simp add: e pow2_def)
  from lo hi show ?thesis ..
next
  case False
  define y where "y = 1 / x"
  define m where "m = \<lceil>y\<rceil> - 1"
  have y: "1 < y" using False assms by (simp add: y_def)
  have m: "1 \<le> m" "of_int m < y" "y \<le> of_int m + 1"
    using y unfolding m_def by linarith+
  have b: "2 ^ nat (bitlen m - 1) \<le> m" "m < 2 ^ nat (bitlen m)"
    using bitlen_bounds [of m] m(1) by auto
  have b1: "1 \<le> bitlen m"
    using m(1) by (simp add: bitlen_alt_def)
  have e: "exponentOf x = - bitlen m"
    using False by (simp add: exponentOf_def m_def y_def)
  have "m + 1 \<le> 2 ^ nat (bitlen m)"
    using b(2) by simp
  then have "(of_int (m + 1) :: rat) \<le> 2 ^ nat (bitlen m)"
    by (simp only: of_int_le_numeral_power_cancel_iff)
  then have "(of_int m + 1 :: rat) \<le> 2 ^ nat (bitlen m)"
    by simp
  with m(3) have "y \<le> 2 ^ nat (bitlen m)"
    by (rule order_trans)
  then have "1 / 2 ^ nat (bitlen m) \<le> x"
    using assms by (simp add: y_def field_simps)
  then have lo: "pow2 (exponentOf x) \<le> x"
    using b1 by (simp add: e pow2_def)
  have "(2::rat) ^ nat (bitlen m - 1) \<le> of_int m"
    using b(1) by simp
  then have "2 ^ nat (bitlen m - 1) < y"
    using m(2) by (rule le_less_trans)
  then have "x < 1 / 2 ^ nat (bitlen m - 1)"
    using assms by (simp add: y_def field_simps)
  moreover have "pow2 (exponentOf x + 1) = 1 / 2 ^ nat (bitlen m - 1)"
    using b1 by (auto simp: e pow2_def)
  ultimately have hi: "x < pow2 (exponentOf x + 1)" by simp
  from lo hi show ?thesis ..
qed

lemma round64_zero: "round64 0 = 0"
  by (simp add: round64_def)

subsection \<open>Tables\<close>

lemma indexTable_Some:
  assumes "indexTable xs k = Some i"
  shows "i < length xs \<and> xs ! i = k"
proof -
  from assms have "(k, i) \<in> set (rev (map (\<lambda>(i, k). (k, i)) (enumerate 0 xs)))"
    unfolding indexTable_def by (rule map_of_SomeD)
  then have "(i, k) \<in> set (enumerate 0 xs)"
    by auto
  then show ?thesis
    by (simp add: in_set_enumerate_eq)
qed

lemma indexTable_None: "indexTable xs k = None \<longleftrightarrow> k \<notin> set xs"
proof -
  have "fst ` set (rev (map (\<lambda>(i, k). (k, i)) (enumerate 0 xs))) = snd ` set (enumerate 0 xs)"
    by force
  also have "\<dots> = set xs"
    by (metis map_snd_enumerate set_map)
  finally show ?thesis
    unfolding indexTable_def by (simp add: map_of_eq_None_iff)
qed

lemma indexTable_mem:
  assumes "k \<in> set xs"
  shows "\<exists>i < length xs. indexTable xs k = Some i \<and> xs ! i = k"
proof -
  from assms have "indexTable xs k \<noteq> None"
    by (simp add: indexTable_None)
  then obtain i where "indexTable xs k = Some i"
    by blast
  with indexTable_Some [OF this] show ?thesis
    by blast
qed

lemma length_CATEGORY_ORDER: "length CATEGORY_ORDER = 13"
  by (simp add: CATEGORY_ORDER_def)

lemma length_CHARSET: "length CHARSET = 40"
  by (simp add: CHARSET_def)

lemma BASE_40: "BASE = 40"
  by (simp add: BASE_def length_CHARSET)

lemma effectiveCategoryKey_mem: "effectiveCategoryKey eff \<in> set CATEGORY_ORDER"
  by (simp add: effectiveCategoryKey_def CATEGORY_ORDER_def)

lemma CATEGORY_INDEX_key:
  "\<exists>i < 13. CATEGORY_INDEX (effectiveCategoryKey eff) = Some i"
  using indexTable_mem [OF effectiveCategoryKey_mem, of eff]
  by (auto simp: CATEGORY_INDEX_def length_CATEGORY_ORDER)

lemma charCode_less: "charCode c < 40"
proof (cases "CHAR_INDEX c")
  case None
  then show ?thesis by (simp add: charCode_def BASE_40)
next
  case (Some i)
  then have "i < length CHARSET"
    unfolding CHAR_INDEX_def by (rule indexTable_Some [THEN conjunct1])
  with Some show ?thesis by (simp add: charCode_def length_CHARSET)
qed

lemma charCode_in: "c \<in> set CHARSET \<Longrightarrow> CHARSET ! charCode c = c"
  using indexTable_mem [of c CHARSET] by (auto simp: charCode_def CHAR_INDEX_def)

lemma charCode_out: "c \<notin> set CHARSET \<Longrightarrow> charCode c = 39"
  by (simp add: charCode_def CHAR_INDEX_def indexTable_None [THEN iffD2] BASE_40)

subsection \<open>The loop of the fraction\<close>

lemma lexLoop_nonneg: "0 \<le> tot \<Longrightarrow> 0 \<le> scale \<Longrightarrow> 0 \<le> lexLoop s tot scale"
proof (induction s arbitrary: tot scale)
  case Nil
  then show ?case by simp
next
  case (Cons ch rest)
  have sc: "0 \<le> round64 (scale * of_nat BASE)"
    using Cons.prems by (intro round64_nonneg) simp
  have "0 \<le> (of_nat (charCode ch) + 1) / round64 (scale * of_nat BASE)"
    by (rule divide_nonneg_nonneg) (simp_all add: sc)
  then have "0 \<le> round64 ((of_nat (charCode ch) + 1) / round64 (scale * of_nat BASE))"
    by (rule round64_nonneg)
  then have "0 \<le> round64 (tot + round64 ((of_nat (charCode ch) + 1) / round64 (scale * of_nat BASE)))"
    using Cons.prems by (intro round64_nonneg) simp
  then show ?case
    using sc by (simp add: Let_def Cons.IH)
qed

lemma lexFraction_nonneg: "0 \<le> lexFraction p"
  by (simp add: lexFraction_def lexLoop_nonneg)

lemma lexLoop_step:
  assumes "k < length s"
  shows "lexLoop (drop k s) (partialSum s k) (powerOfBase k) =
         lexLoop (drop (Suc k) s) (partialSum s (Suc k)) (powerOfBase (Suc k))"
proof -
  have "drop k s = s ! k # drop (Suc k) s"
    using assms by (simp add: Cons_nth_drop_Suc)
  then show ?thesis
    by (simp add: Let_def BASE_40 contribution_def)
qed

lemma lexLoop_positional:
  "k \<le> length s \<Longrightarrow>
   lexLoop (drop k s) (partialSum s k) (powerOfBase k) = partialSum s (length s)"
proof (induction "length s - k" arbitrary: k)
  case 0
  then show ?case by simp
next
  case (Suc d)
  then have k: "k < length s" and d: "d = length s - Suc k"
    by simp_all
  from k have "Suc k \<le> length s" by simp
  with Suc.hyps(1) [OF d] lexLoop_step [OF k] show ?case
    by simp
qed

lemma partialSum_cong:
  "(\<And>i. i < n \<Longrightarrow> s ! i = t ! i) \<Longrightarrow> partialSum s n = partialSum t n"
  by (induction n) (simp_all add: contribution_def)

lemma lexFraction_positional:
  "lexFraction p = partialSum (toUpperCase p) (min 128 (length p))"
proof -
  let ?s = "take 128 (toUpperCase p)"
  have len: "length ?s = min 128 (length p)"
    by (simp add: toUpperCase_def min.commute)
  have "lexFraction p = lexLoop (drop 0 ?s) (partialSum ?s 0) (powerOfBase 0)"
    by (simp add: lexFraction_def)
  also have "\<dots> = partialSum ?s (length ?s)"
    by (rule lexLoop_positional) simp
  also have "\<dots> = partialSum (toUpperCase p) (length ?s)"
    by (rule partialSum_cong) simp
  finally show ?thesis
    by (simp only: len)
qed

subsection \<open>Slot, nudge and the fields of a plan\<close>

lemma stableHash01_range: "0 \<le> stableHash01 s \<and> stableHash01 s \<le> 1"
proof -
  have "uint (fnvLoop s 0x811c9dc5 AND 1) = uint (fnvLoop s 0x811c9dc5) mod 2"
    by (simp add: and_one_eq uint_mod)
  then show ?thesis
    unfolding stableHash01_def by (simp add: pos_mod_bound [of 2] zle_diff1_eq [of _ 2, simplified])
qed

lemma slotIndexWithinCategory_eq:
  "slotIndexWithinCategory eff =
     (min \<lfloor>round64 (lexFraction (payloadForEffective eff) * of_int SLOTS_PER_CATEGORY)\<rfloor>
          (SLOTS_PER_CATEGORY - 1),
      payloadForEffective eff)"
  by (simp add: slotIndexWithinCategory_def Let_def min_def)

lemma slot_range:
  "0 \<le> fst (slotIndexWithinCategory eff) \<and>
   fst (slotIndexWithinCategory eff) < SLOTS_PER_CATEGORY"
proof -
  have "0 \<le> lexFraction (payloadForEffective eff) * of_int SLOTS_PER_CATEGORY"
    by (simp add: lexFraction_nonneg SLOTS_PER_CATEGORY_def)
  then have "0 \<le> round64 (lexFraction (payloadForEffective eff) * of_int SLOTS_PER_CATEGORY)"
    by (rule round64_nonneg)
  then have "0 \<le> \<lfloor>round64 (lexFraction (payloadForEffective eff) * of_int SLOTS_PER_CATEGORY)\<rfloor>"
    by simp
  then show ?thesis
    by (simp add: slotIndexWithinCategory_eq SLOTS_PER_CATEGORY_def)
qed

lemma slot_examples:
  "slotIndexWithinCategory ''5'' = (15119, ''5'')"
  "slotIndexWithinCategory ''DBG_1A'' = (7127, ''1A'')"
  "slotIndexWithinCategory ''SYS_BOOT'' = (29520, ''BOOT'')"
  "lexFraction ''b!'' = 6305039478318695 / 18014398509481984"
  by code_simp+

lemmas engine_defs =
  planForName_def normalizeToEffective_def effectiveCategoryKey_def categoryLabel_def
  payloadForEffective_def slotIndexWithinCategory_def lexFraction_def charCode_def
  stableHash01_def toUTCDateFromLocalBaseMinusSeconds_def
  CATEGORY_INDEX_def CHAR_INDEX_def indexTable_def CATEGORY_ORDER_def CHARSET_def BASE_def
  UNPREFIXED_IN_CATEGORY_def CATEGORY_BLOCK_SECONDS_def SLOTS_PER_CATEGORY_def
  SECONDS_BETWEEN_ITEMS_def
  trim_def toUpperCase_def upperChar_def isWhiteSpace_def startsWith_def removeDashes_def

text \<open>
  The engine never fails: the key of every name is in the index table, so the plan is
  built, and its fields are the values the source computes.
\<close>

lemma planForName_fields:
  "\<exists>i < 13. \<exists>p. planForName h s = Inr p \<and>
     CATEGORY_INDEX (effectiveCategoryKey (normalizeToEffective s)) = Some i \<and>
     ok p \<and> input p = s \<and> effectiveName p = normalizeToEffective s \<and>
     category p = categoryLabel (effectiveName p) \<and>
     categoryKey p = effectiveCategoryKey (effectiveName p) \<and>
     categoryIndex p = int i \<and>
     slot p = fst (slotIndexWithinCategory (effectiveName p)) \<and>
     payloadUsed p = payloadForEffective (effectiveName p) \<and>
     offsetSeconds p = categoryIndex p * CATEGORY_BLOCK_SECONDS +
       (slot p * SECONDS_BETWEEN_ITEMS + stableHash01 (effectiveName p)) \<and>
     epochMillis p = baseLocalMillis h - offsetSeconds p * 1000 \<and>
     isoLocal p = toLocaleString h (epochMillis p) \<and>
     isoUTC p = toISOString h (epochMillis p)"
proof -
  obtain i where i: "i < 13"
      "CATEGORY_INDEX (effectiveCategoryKey (normalizeToEffective s)) = Some i"
    using CATEGORY_INDEX_key by blast
  show ?thesis
    using i
    by (simp add: planForName_def Let_def toUTCDateFromLocalBaseMinusSeconds_def
        slotIndexWithinCategory_eq split: prod.splits)
qed

subsection \<open>Separation of categories\<close>

text \<open>
  The offset of a name inside its category is \<open>slot * SECONDS_BETWEEN_ITEMS + nudge\<close>,
  with the slot at most 86399 and the nudge at most 1: it can reach the block size 86400,
  the first offset of the next category. So a lower category index gives an offset that
  is at most, and not always below, the offset of a higher one.
\<close>

lemma offsetSeconds_weakly_separated:
  assumes "planForName h s1 = Inr p1" "planForName h s2 = Inr p2"
    and "categoryIndex p1 < categoryIndex p2"
  shows "offsetSeconds p1 \<le> offsetSeconds p2"
proof -
  have b1: "slot p1 < SLOTS_PER_CATEGORY" "stableHash01 (effectiveName p1) \<le> 1"
       "offsetSeconds p1 = categoryIndex p1 * CATEGORY_BLOCK_SECONDS +
          (slot p1 * SECONDS_BETWEEN_ITEMS + stableHash01 (effectiveName p1))"
    using planForName_fields [of h s1] assms(1) slot_range stableHash01_range by auto
  have b2: "0 \<le> slot p2" "0 \<le> stableHash01 (effectiveName p2)"
       "offsetSeconds p2 = categoryIndex p2 * CATEGORY_BLOCK_SECONDS +
          (slot p2 * SECONDS_BETWEEN_ITEMS + stableHash01 (effectiveName p2))"
    using planForName_fields [of h s2] assms(2) slot_range stableHash01_range by auto
  have "categoryIndex p1 + 1 \<le> categoryIndex p2"
    using assms(3) by simp
  then have "(categoryIndex p1 + 1) * 86400 \<le> categoryIndex p2 * 86400"
    by simp
  with b1 b2 show ?thesis
    by (simp add: CATEGORY_BLOCK_SECONDS_def SLOTS_PER_CATEGORY_def SECONDS_BETWEEN_ITEMS_def)
qed

text \<open>
  Claim C1 (strict separation of categories: a lower category index gives a strictly
  smaller offset). The engine at two names of adjacent categories: \<open>DBG_.\<close> has category
  index 6, the last slot 86399 and nudge 1; \<open>RAA_\<close> has category index 7, slot 0 and
  nudge 0. Both get the offset 604800 seconds, so the first is not strictly newer than
  the second.
\<close>

theorem adjacent_blocks_meet:
  "\<exists>p1 p2. planForName h ''DBG_.'' = Inr p1 \<and> planForName h ''RAA_'' = Inr p2 \<and>
     categoryIndex p1 = 6 \<and> categoryIndex p2 = 7 \<and>
     slot p1 = 86399 \<and> slot p2 = 0 \<and>
     stableHash01 (effectiveName p1) = 1 \<and> stableHash01 (effectiveName p2) = 0 \<and>
     offsetSeconds p1 = 604800 \<and> offsetSeconds p2 = 604800"
proof -
  have s1: "slotIndexWithinCategory ''DBG_.'' = (86399, ''.'')"
    by code_simp
  have s2: "slotIndexWithinCategory ''RAA_'' = (0, '''')"
    by code_simp
  have n1: "stableHash01 ''DBG_.'' = 1" and n2: "stableHash01 ''RAA_'' = 0"
    by (simp_all add: stableHash01_def)
  have e1: "normalizeToEffective ''DBG_.'' = ''DBG_.''"
    and e2: "normalizeToEffective ''RAA_'' = ''RAA_''"
    by (simp_all add: normalizeToEffective_def UNPREFIXED_IN_CATEGORY_def trim_def
        isWhiteSpace_def toUpperCase_def upperChar_def)
  have i1: "CATEGORY_INDEX (effectiveCategoryKey ''DBG_.'') = Some 6"
    and i2: "CATEGORY_INDEX (effectiveCategoryKey ''RAA_'') = Some 7"
    by (simp_all add: effectiveCategoryKey_def startsWith_def CATEGORY_INDEX_def
        indexTable_def CATEGORY_ORDER_def)
  obtain p1 where p1: "planForName h ''DBG_.'' = Inr p1" "categoryIndex p1 = 6"
      "slot p1 = 86399" "stableHash01 (effectiveName p1) = 1"
      "offsetSeconds p1 = categoryIndex p1 * CATEGORY_BLOCK_SECONDS +
         (slot p1 * SECONDS_BETWEEN_ITEMS + stableHash01 (effectiveName p1))"
    using planForName_fields [of h "''DBG_.''"] by (auto simp: e1 i1 s1 n1)
  obtain p2 where p2: "planForName h ''RAA_'' = Inr p2" "categoryIndex p2 = 7"
      "slot p2 = 0" "stableHash01 (effectiveName p2) = 0"
      "offsetSeconds p2 = categoryIndex p2 * CATEGORY_BLOCK_SECONDS +
         (slot p2 * SECONDS_BETWEEN_ITEMS + stableHash01 (effectiveName p2))"
    using planForName_fields [of h "''RAA_''"] by (auto simp: e2 i2 s2 n2)
  have "offsetSeconds p1 = 604800" "offsetSeconds p2 = 604800"
    using p1 p2
    by (simp_all add: CATEGORY_BLOCK_SECONDS_def SLOTS_PER_CATEGORY_def
        SECONDS_BETWEEN_ITEMS_def)
  with p1 p2 show ?thesis
    by blast
qed

subsection \<open>Range of the fraction\<close>

lemma lexFraction_empty: "lexFraction '''' = 0"
  by (simp add: lexFraction_def toUpperCase_def)

text \<open>
  Claim C2 (the fraction is in the half-open interval from 0 to 1, so the clamp of the
  slot is never reached by the exact value). The source's own comment on the return of
  \<^verbatim>\<open>lexFraction\<close> says \<^verbatim>\<open>in [0, 1)\<close>. The encoder at the payload \<open>.\<close>: the period
  has the last rank 39, it contributes \<open>(39 + 1) / 40\<close>, and the fraction is exactly 1, no
  step being rounded; the floor of \<open>1 * 86400\<close> is 86400, and the clamp sets the slot to
  86399.
\<close>

theorem lexFraction_period_is_one:
  "lexFraction ''.'' = 1 \<and>
   \<lfloor>lexFraction ''.'' * of_int SLOTS_PER_CATEGORY\<rfloor> = SLOTS_PER_CATEGORY \<and>
   slotIndexWithinCategory ''.'' = (SLOTS_PER_CATEGORY - 1, ''.'')"
  by code_simp

subsection \<open>Charset and base\<close>

text \<open>
  Claim C3, as stated (41 characters, ranks up to 40, base 41), fails on the table of
  the source: it has 40 characters, so the base is 40, a character outside it has rank
  39, and the payload \<open>0\<close> (rank 1) has the fraction \<open>2 / 40\<close>, not \<open>2 / 41\<close>.
\<close>

theorem charset_size_counterexample:
  "length CHARSET \<noteq> 41 \<and> BASE \<noteq> 41 \<and> charCode (CHR ''!'') \<noteq> 40 \<and>
   lexFraction ''0'' \<noteq> (1 + 1) / 41 ^ 1"
  by code_simp

text \<open>
  Claim C3, amended: the charset table is a sequence of exactly 40 distinct characters;
  the rank of a character of the table is its position, in 0..39, and every other
  character has the last rank 39; the encoder uses the base 40, and the character at the
  1-based position \<open>i\<close> of the upper-cased payload contributes \<open>(rank + 1) / 40 ^ i\<close>,
  summed from the first position on over at most the first 128 characters, where the
  power, each quotient and each partial sum are the doubles the arithmetic of the source
  gives (\<open>powerOfBase\<close>, \<open>contribution\<close>, \<open>partialSum\<close>).
\<close>

theorem lexFraction_base_40:
  "length CHARSET = 40 \<and> distinct CHARSET \<and> BASE = 40 \<and> charCode c < 40 \<and>
   (c \<in> set CHARSET \<longrightarrow> CHARSET ! charCode c = c) \<and>
   (c \<notin> set CHARSET \<longrightarrow> charCode c = 39) \<and>
   lexFraction p = partialSum (toUpperCase p) (min 128 (length p))"
proof -
  have "distinct CHARSET" by (simp add: CHARSET_def)
  then show ?thesis
    using lexFraction_positional [of p]
    by (simp add: length_CHARSET BASE_40 charCode_less charCode_in charCode_out)
qed

text \<open>
  At the payload \<open>b!\<close> the two contributions are the doubles nearest to \<open>13 / 40\<close> and
  \<open>40 / 1600\<close>, and the fraction is the double \<open>0.35000000000000003\<close>, one spacing above
  the double nearest to \<open>7 / 20\<close>.
\<close>

theorem lexFraction_base_40_witness:
  "CHR ''B'' \<in> set CHARSET \<and> CHARSET ! charCode (CHR ''B'') = CHR ''B'' \<and>
   CHR ''!'' \<notin> set CHARSET \<and> charCode (CHR ''!'') = 39 \<and>
   contribution (toUpperCase ''b!'') 0 = 5854679515581645 / 18014398509481984 \<and>
   contribution (toUpperCase ''b!'') 1 = 3602879701896397 / 144115188075855872 \<and>
   lexFraction ''b!'' = 6305039478318695 / 18014398509481984 \<and>
   lexFraction ''b!'' \<noteq> round64 (7 / 20)"
proof -
  have inB: "CHR ''B'' \<in> set CHARSET"
    by (simp add: CHARSET_def)
  have out: "CHR ''!'' \<notin> set CHARSET"
    by (simp add: CHARSET_def)
  have c0: "contribution (toUpperCase ''b!'') 0 = 5854679515581645 / 18014398509481984"
    by code_simp
  have c1: "contribution (toUpperCase ''b!'') 1 = 3602879701896397 / 144115188075855872"
    by code_simp
  have ps: "partialSum (toUpperCase ''b!'') (min 128 (length ''b!'')) =
      6305039478318695 / 18014398509481984"
    by code_simp
  have r: "round64 (7 / 20) \<noteq> 6305039478318695 / 18014398509481984"
    by code_simp
  note tB = lexFraction_base_40 [of "CHR ''B''" "''b!''"]
  note tE = lexFraction_base_40 [of "CHR ''!''" "''b!''"]
  from tB inB have "CHARSET ! charCode (CHR ''B'') = CHR ''B''"
    by blast
  moreover from tE out have "charCode (CHR ''!'') = 39"
    by blast
  moreover from tE have "lexFraction ''b!'' =
      partialSum (toUpperCase ''b!'') (min 128 (length ''b!''))"
    by blast
  then have "lexFraction ''b!'' = 6305039478318695 / 18014398509481984"
    using ps by (rule trans)
  moreover from this r have "lexFraction ''b!'' \<noteq> round64 (7 / 20)"
    by simp
  ultimately show ?thesis
    using inB out c0 c1 by blast
qed

subsection \<open>Case and whitespace\<close>

text \<open>
  Claim C4, as stated (the three plans are equal in every field), fails: the field
  \<open>input\<close> echoes the raw argument, which differs between the three calls.
\<close>

theorem boot_input_counterexample:
  "planForName utcHost ''  boot '' \<noteq> planForName utcHost ''BOOT'' \<and>
   planForName utcHost ''Boot'' \<noteq> planForName utcHost ''BOOT''"
  by (simp add: engine_defs Let_def)

text \<open>
  Claim C4, amended: the plans of \<open>  boot \<close>, \<open>BOOT\<close> and \<open>Boot\<close> have the effective
  name \<open>SYS_BOOT\<close> and are equal in every field other than \<open>input\<close>, which holds the
  argument as it was given.
\<close>

theorem boot_plans_agree:
  "\<exists>p. planForName h ''BOOT'' = Inr p \<and> effectiveName p = ''SYS_BOOT'' \<and>
     input p = ''BOOT'' \<and>
     planForName h ''  boot '' = Inr (p\<lparr>input := ''  boot ''\<rparr>) \<and>
     planForName h ''Boot'' = Inr (p\<lparr>input := ''Boot''\<rparr>)"
  by (simp add: engine_defs Let_def)

subsection \<open>Slot\<close>

text \<open>
  Claim C5: for every input the engine returns a plan whose slot is at least 0 and below
  \<open>SLOTS_PER_CATEGORY\<close>; it is the floor of the fraction of the payload times
  \<open>SLOTS_PER_CATEGORY\<close> (the double product of the double fraction), replaced by
  \<open>SLOTS_PER_CATEGORY - 1\<close> when that floor reaches or exceeds \<open>SLOTS_PER_CATEGORY\<close>.
\<close>

theorem slot_bounded:
  "\<exists>p. planForName h s = Inr p \<and> 0 \<le> slot p \<and> slot p < SLOTS_PER_CATEGORY \<and>
     payloadUsed p = payloadForEffective (normalizeToEffective s) \<and>
     slot p =
       (if \<lfloor>round64 (lexFraction (payloadUsed p) * of_int SLOTS_PER_CATEGORY)\<rfloor>
             \<ge> SLOTS_PER_CATEGORY
        then SLOTS_PER_CATEGORY - 1
        else \<lfloor>round64 (lexFraction (payloadUsed p) * of_int SLOTS_PER_CATEGORY)\<rfloor>)"
proof -
  obtain p where p: "planForName h s = Inr p"
      "effectiveName p = normalizeToEffective s"
      "slot p = fst (slotIndexWithinCategory (effectiveName p))"
      "payloadUsed p = payloadForEffective (effectiveName p)"
    using planForName_fields [of h s] by blast
  have "0 \<le> slot p \<and> slot p < SLOTS_PER_CATEGORY"
    using slot_range [of "effectiveName p"] p(3) by simp
  moreover have "slot p =
       (if \<lfloor>round64 (lexFraction (payloadUsed p) * of_int SLOTS_PER_CATEGORY)\<rfloor>
             \<ge> SLOTS_PER_CATEGORY
        then SLOTS_PER_CATEGORY - 1
        else \<lfloor>round64 (lexFraction (payloadUsed p) * of_int SLOTS_PER_CATEGORY)\<rfloor>)"
    using p(3,4) by (simp add: slotIndexWithinCategory_def Let_def)
  ultimately show ?thesis
    using p(1,2,4) by simp
qed

subsection \<open>Fixtures\<close>

text \<open>
  Claim C6: the plan of \<open>RESTART\<close> has the effective name \<open>RAA_RESTART\<close> and the category
  key \<open>RAA_\<close>; the plan of \<open>BOOT\<close> has the effective name \<open>SYS_BOOT\<close> and the category
  key \<open>SYS_\<close>; the plan of the empty name has the category key \<open>DEFAULT\<close>, the empty
  payload and the slot 0.
\<close>

theorem known_fixtures:
  "(\<exists>p. planForName h ''RESTART'' = Inr p \<and>
        effectiveName p = ''RAA_RESTART'' \<and> categoryKey p = ''RAA_'') \<and>
   (\<exists>p. planForName h ''BOOT'' = Inr p \<and>
        effectiveName p = ''SYS_BOOT'' \<and> categoryKey p = ''SYS_'') \<and>
   (\<exists>p. planForName h '''' = Inr p \<and>
        categoryKey p = ''DEFAULT'' \<and> payloadUsed p = '''' \<and> slot p = 0)"
  by (simp add: engine_defs Let_def round64_zero)

subsection \<open>Classifier\<close>

text \<open>
  Claim C7: the classifier of the source is the walk over the category order table that
  the specification describes (\<open>classifyInTableOrder\<close>): the four-character keys in
  table order, each a prefix rule, with \<open>APPS\<close> matched exactly and the bare \<open>SYS\<close>
  accepted for \<open>SYS_\<close>; the first match wins, and \<open>DEFAULT\<close> is returned when none does.
\<close>

theorem effectiveCategoryKey_table_order:
  "effectiveCategoryKey eff = classifyInTableOrder eff"
  by (simp add: effectiveCategoryKey_def classifyInTableOrder_def ruleMatches_def
      CATEGORY_ORDER_def startsWith_def)

subsection \<open>Request handler\<close>

text \<open>
  Claim C8: when the query has no \<open>name\<close> or an empty one, the handler makes no call of
  \<open>planForName\<close> and responds with the body \<^verbatim>\<open>{ ok: false, error: "Missing 'name' query param" }\<close>;
  otherwise it calls \<open>planForName\<close> once, on the name, and the body is the plan it
  returned, whose \<open>ok\<close> is true.
\<close>

theorem handleApi_missing_or_plan:
  "(searchParams_get u ''name'' = None \<or> searchParams_get u ''name'' = Some '''' \<longrightarrow>
      handleApi h u =
        ([], Inr \<lparr>body = ErrorBody False ''Missing 'name' query param'',
                   status = 200, headers = apiHeaders\<rparr>)) \<and>
   (\<forall>n. searchParams_get u ''name'' = Some n \<and> n \<noteq> '''' \<longrightarrow>
      (\<exists>p. planForName h n = Inr p \<and> ok p \<and>
           handleApi h u =
             ([n], Inr \<lparr>body = PlanBody p, status = 200, headers = apiHeaders\<rparr>)))"
proof (intro conjI allI impI)
  assume "searchParams_get u ''name'' = None \<or> searchParams_get u ''name'' = Some ''''"
  then show "handleApi h u =
        ([], Inr \<lparr>body = ErrorBody False ''Missing 'name' query param'',
                   status = 200, headers = apiHeaders\<rparr>)"
    by (auto simp: handleApi_def)
next
  fix n
  assume n: "searchParams_get u ''name'' = Some n \<and> n \<noteq> ''''"
  obtain p where p: "planForName h n = Inr p" "ok p"
    using planForName_fields [of h n] by blast
  with n have "handleApi h u =
      ([n], Inr \<lparr>body = PlanBody p, status = 200, headers = apiHeaders\<rparr>)"
    by (simp add: handleApi_def)
  with p show "\<exists>p. planForName h n = Inr p \<and> ok p \<and>
           handleApi h u =
             ([n], Inr \<lparr>body = PlanBody p, status = 200, headers = apiHeaders\<rparr>)"
    by blast
qed

theorem handleApi_missing_or_plan_witness:
  "searchParams_get [] ''name'' = None \<and>
   handleApi utcHost [] =
     ([], Inr \<lparr>body = ErrorBody False ''Missing 'name' query param'',
                status = 200, headers = apiHeaders\<rparr>) \<and>
   searchParams_get [(''name'', '''')] ''name'' = Some '''' \<and>
   handleApi utcHost [(''name'', '''')] =
     ([], Inr \<lparr>body = ErrorBody False ''Missing 'name' query param'',
                status = 200, headers = apiHeaders\<rparr>) \<and>
   searchParams_get [(''name'', ''opl'')] ''name'' = Some ''opl'' \<and>
   (\<exists>p. planForName utcHost ''opl'' = Inr p \<and> ok p \<and>
      handleApi utcHost [(''name'', ''opl'')] =
        ([''opl''], Inr \<lparr>body = PlanBody p, status = 200, headers = apiHeaders\<rparr>))"
proof -
  have a: "searchParams_get [] ''name'' = None"
    by (simp add: searchParams_get_def)
  have b: "searchParams_get [(''name'', '''')] ''name'' = Some ''''"
    by (simp add: searchParams_get_def)
  have c: "searchParams_get [(''name'', ''opl'')] ''name'' = Some ''opl'' \<and> ''opl'' \<noteq> ''''"
    by (simp add: searchParams_get_def)
  note t1 = handleApi_missing_or_plan [of "[]" utcHost, THEN conjunct1, rule_format,
      OF disjI1, OF a]
  note t2 = handleApi_missing_or_plan [of "[(''name'', '''')]" utcHost, THEN conjunct1,
      rule_format, OF disjI2, OF b]
  note t3 = handleApi_missing_or_plan [of "[(''name'', ''opl'')]" utcHost, THEN conjunct2,
      rule_format, OF c]
  from a b c t1 t2 t3 show ?thesis
    by blast
qed

text \<open>
  Claim C9: every response of the handler, the failure body for a missing name included,
  has the status 200.
\<close>

theorem handleApi_status_200:
  "\<exists>r. snd (handleApi h u) = Inr r \<and> status r = 200"
proof -
  obtain p where
    "planForName h (case searchParams_get u ''name'' of None \<Rightarrow> '''' | Some v \<Rightarrow> v) = Inr p"
    using planForName_fields by blast
  then show ?thesis
    by (simp add: handleApi_def Let_def)
qed

subsection \<open>Category index\<close>

text \<open>
  Claim C10: the key the classifier returns is one of the 13 entries of
  \<open>CATEGORY_ORDER\<close>; so for every input the engine returns a plan, its category index
  is the entry of \<open>CATEGORY_INDEX\<close> for its key, the position of the key in
  \<open>CATEGORY_ORDER\<close>, an integer from 0 to 12, and its offset in seconds is an integer
  that is not negative.
\<close>

theorem categoryIndex_defined:
  "length CATEGORY_ORDER = 13 \<and> effectiveCategoryKey eff \<in> set CATEGORY_ORDER \<and>
   (\<exists>p. planForName h s = Inr p \<and> categoryKey p \<in> set CATEGORY_ORDER \<and>
      CATEGORY_INDEX (categoryKey p) = Some (nat (categoryIndex p)) \<and>
      CATEGORY_ORDER ! nat (categoryIndex p) = categoryKey p \<and>
      0 \<le> categoryIndex p \<and> categoryIndex p \<le> 12 \<and> 0 \<le> offsetSeconds p)"
proof -
  obtain i p where p: "i < 13" "planForName h s = Inr p"
      "CATEGORY_INDEX (effectiveCategoryKey (normalizeToEffective s)) = Some i"
      "effectiveName p = normalizeToEffective s"
      "categoryKey p = effectiveCategoryKey (effectiveName p)"
      "categoryIndex p = int i"
      "slot p = fst (slotIndexWithinCategory (effectiveName p))"
      "offsetSeconds p = categoryIndex p * CATEGORY_BLOCK_SECONDS +
         (slot p * SECONDS_BETWEEN_ITEMS + stableHash01 (effectiveName p))"
    using planForName_fields [of h s] by blast
  have key: "categoryKey p \<in> set CATEGORY_ORDER"
    using p(5) by (simp add: effectiveCategoryKey_mem)
  have idx: "CATEGORY_INDEX (categoryKey p) = Some (nat (categoryIndex p))"
    using p(3,4,5,6) by simp
  then have nth: "CATEGORY_ORDER ! nat (categoryIndex p) = categoryKey p"
    unfolding CATEGORY_INDEX_def by (rule indexTable_Some [THEN conjunct2])
  have "0 \<le> slot p"
    using slot_range [of "effectiveName p"] p(7) by simp
  moreover have "0 \<le> stableHash01 (effectiveName p)"
    using stableHash01_range by blast
  ultimately have off: "0 \<le> offsetSeconds p"
    using p(6,8)
    by (simp add: CATEGORY_BLOCK_SECONDS_def SLOTS_PER_CATEGORY_def SECONDS_BETWEEN_ITEMS_def)
  from p(1,2,6) key idx nth off show ?thesis
    by (auto simp: length_CATEGORY_ORDER effectiveCategoryKey_mem)
qed

end
